theory Spec2Isabelle
  imports Main "HOL-Library.Word" "HOL-Library.Char_ord"
begin

section \<open>JSON documents and errors\<close>

text \<open>
  A JSON value as \<^verbatim>\<open>encoding/json\<close> reads it. An object keeps its members in the order
  of the text, duplicates included, because the decoder visits them one after the
  other. A number literal that is a plain integer carries its value (\<open>JNumber\<close>);
  a literal with a fraction or an exponent carries its text (\<open>JFloat\<close>).
\<close>

datatype json =
    JNull
  | JBool bool
  | JNumber int
  | JFloat string
  | JString string
  | JArray "json list"
  | JObject "(string \<times> json) list"

text \<open>
  The byte slice handed to \<^verbatim>\<open>json.Unmarshal\<close>, by what the scanner makes of it:
  \<open>None\<close> when the bytes are not one well-formed JSON text (truncated input, for
  one), \<open>Some v\<close> when they spell the value \<open>v\<close>.
\<close>

type_synonym data = "json option"

text \<open>
  The errors of the package: \<^verbatim>\<open>errors.New(msg)\<close>, and the two families of
  \<^verbatim>\<open>json.Unmarshal\<close>: the text is not JSON, or a value does not fit the Go type it
  is stored into (a failing nested decoder is reported under the same constructor).
\<close>

datatype error =
    errors_New string
  | SyntaxError
  | UnmarshalTypeError

section \<open>The data model\<close>

text \<open>
  \<^verbatim>\<open>User\<close> and \<^verbatim>\<open>Channel\<close> are declared in files that are not among the sources;
  the records hold the fields the sources read or write (\<^verbatim>\<open>User{ID: userID}\<close>,
  \<^verbatim>\<open>ch.Type\<close>, \<^verbatim>\<open>ch.ID\<close>). The client of a channel is passed to \<open>SendEvent\<close>
  apart. \<^verbatim>\<open>Message\<close>, \<^verbatim>\<open>Reaction\<close>, \<^verbatim>\<open>ChannelMember\<close> and \<^verbatim>\<open>time.Time\<close>
  are type parameters \<open>'msg\<close>, \<open>'rea\<close>, \<open>'mem\<close>, \<open>'tm\<close>. A pointer is an option
  (\<open>None\<close> is \<^verbatim>\<open>nil\<close>), a slice is a list (the \<^verbatim>\<open>nil\<close> slice and the empty
  slice are both \<open>[]\<close>), \<^verbatim>\<open>int\<close> is a 64-bit word read as signed, and
  \<^verbatim>\<open>map[string]interface{}\<close> is a map from keys to the JSON values it holds.
\<close>

record User =
  ID :: string

record Channel =
  ID :: string
  Type :: string

record 'tm UserCustomEvent =
  Type :: string
  ExtraData :: "string \<rightharpoonup> json"
  CreatedAt :: 'tm

record ('msg, 'rea, 'mem, 'tm) Event =
  CID :: string
  Type :: string
  Message :: "'msg option"
  Reaction :: "'rea option"
  Channel :: "Channel option"
  Member :: "'mem option"
  Members :: "'mem option list"
  User :: "User option"
  UserID :: string
  OwnUser :: "User option"
  WatcherCount :: "64 word"
  ExtraData :: "string \<rightharpoonup> json"
  CreatedAt :: 'tm

section \<open>Request paths: \<^verbatim>\<open>url.PathEscape\<close> and \<^verbatim>\<open>path.Join\<close>\<close>

text \<open>\<^verbatim>\<open>shouldEscape(c, encodePathSegment)\<close> of \<^verbatim>\<open>net/url\<close>.\<close>

definition inRange :: "char \<Rightarrow> char \<Rightarrow> char \<Rightarrow> bool" where
  "inRange lo hi c = (lo \<le> c \<and> c \<le> hi)"

definition shouldEscape :: "char \<Rightarrow> bool" where
  "shouldEscape c =
    (if inRange (CHR ''a'') (CHR ''z'') c \<or> inRange (CHR ''A'') (CHR ''Z'') c
        \<or> inRange (CHR ''0'') (CHR ''9'') c
     then False
     else if c \<in> set ''-_.~'' then False
     else if c \<in> set ''$&+,/:;=?@''
       then c = CHR ''/'' \<or> c = CHR '';'' \<or> c = CHR '','' \<or> c = CHR ''?''
     else True)"

definition upperhex :: string where
  "upperhex = ''0123456789ABCDEF''"

definition escapeByte :: "char \<Rightarrow> string" where
  "escapeByte c =
    (if shouldEscape c
     then [CHR ''%'', upperhex ! (of_char c div 16), upperhex ! (of_char c mod 16)]
     else [c])"

definition PathEscape :: "string \<Rightarrow> string" where
  "PathEscape s = concat (map escapeByte s)"

text \<open>
  \<^verbatim>\<open>path.Clean\<close>, element by element. The Go loop scans the bytes with an output
  buffer; between two slashes it meets an empty element or \<^verbatim>\<open>.\<close> (skipped),
  \<^verbatim>\<open>..\<close> (the last element of the buffer is dropped when there is one above the
  \<^verbatim>\<open>dotdot\<close> mark, else \<^verbatim>\<open>..\<close> is appended unless the path is rooted), or a
  real element (appended). \<open>splitSlash\<close> cuts the path at its slashes, \<open>cleanElems\<close>
  is the loop with the buffer as the list \<open>out\<close> of its elements (the elements
  below the mark are those equal to \<^verbatim>\<open>..\<close>), \<open>joinSlash\<close> writes the buffer.
\<close>

fun splitSlash :: "string \<Rightarrow> string list" where
  "splitSlash [] = [[]]"
| "splitSlash (c # cs) =
    (if c = CHR ''/'' then [] # splitSlash cs
     else (case splitSlash cs of e # es \<Rightarrow> (c # e) # es | [] \<Rightarrow> [[c]]))"

fun cleanElems :: "bool \<Rightarrow> string list \<Rightarrow> string list \<Rightarrow> string list" where
  "cleanElems rooted [] out = out"
| "cleanElems rooted (e # es) out =
    (if e = [] \<or> e = ''.'' then cleanElems rooted es out
     else if e = ''..''
     then (if out \<noteq> [] \<and> last out \<noteq> ''..'' then cleanElems rooted es (butlast out)
           else if \<not> rooted then cleanElems rooted es (out @ [''..''])
           else cleanElems rooted es out)
     else cleanElems rooted es (out @ [e]))"

fun joinSlash :: "string list \<Rightarrow> string" where
  "joinSlash [] = []"
| "joinSlash [e] = e"
| "joinSlash (e # es) = e @ ''/'' @ joinSlash es"

definition Clean :: "string \<Rightarrow> string" where
  "Clean p =
    (if p = [] then ''.''
     else let rooted = (hd p = CHR ''/'');
              out = joinSlash (cleanElems rooted (splitSlash p) [])
          in if rooted then CHR ''/'' # out
             else if out = [] then ''.'' else out)"

text \<open>\<^verbatim>\<open>path.Join\<close>: the elements are written to a buffer, then cleaned.\<close>

fun joinBuf :: "string list \<Rightarrow> string \<Rightarrow> string" where
  "joinBuf [] buf = buf"
| "joinBuf (e # es) buf =
    joinBuf es
      (if length buf > 0 \<or> e \<noteq> []
       then (if length buf > 0 then buf @ ''/'' else buf) @ e
       else buf)"

definition Join :: "string list \<Rightarrow> string" where
  "Join elem = (if sum_list (map length elem) = 0 then [] else Clean (joinBuf elem []))"

section \<open>Event dispatch\<close>

text \<open>
  The envelope \<^verbatim>\<open>struct{ Event *Event }\<close> of \<open>SendEvent\<close> and the one of
  \<open>SendUserCustomEvent\<close>, holding the event the pointer refers to when the request
  is made.
\<close>

datatype ('msg, 'rea, 'mem, 'tm) envelope =
    EventEnvelope "('msg, 'rea, 'mem, 'tm) Event"
  | UserCustomEventEnvelope "'tm UserCustomEvent"

record ('msg, 'rea, 'mem, 'tm) request =
  reqMethod :: string
  reqPath :: string
  reqBody :: "('msg, 'rea, 'mem, 'tm) envelope"

definition MethodPost :: string where
  "MethodPost = ''POST''"

text \<open>
  Modelled from the spec: \<^verbatim>\<open>Client.makeRequest\<close> is not among the sources. It is the
  transport collaborator of section 6: it performs one call with the method, the path
  and the body it is given and returns the decoded response and any error. The remote
  side is a parameter \<open>remote\<close>, a function of the traffic so far and the request; the
  state of the network is the list of requests issued. The context and the (absent)
  query parameters are left out.
\<close>

definition makeRequest ::
  "(('msg, 'rea, 'mem, 'tm) request list \<Rightarrow> ('msg, 'rea, 'mem, 'tm) request \<Rightarrow> 'resp \<times> error option)
   \<Rightarrow> string \<Rightarrow> string \<Rightarrow> ('msg, 'rea, 'mem, 'tm) envelope
   \<Rightarrow> ('msg, 'rea, 'mem, 'tm) request list
   \<Rightarrow> ('resp \<times> error option) \<times> ('msg, 'rea, 'mem, 'tm) request list" where
  "makeRequest remote m p b sent =
    (remote sent \<lparr>reqMethod = m, reqPath = p, reqBody = b\<rparr>,
     sent @ [\<lparr>reqMethod = m, reqPath = p, reqBody = b\<rparr>])"

text \<open>
  \<^verbatim>\<open>Channel.SendEvent\<close>. The event is a pointer: \<open>None\<close> is \<^verbatim>\<open>nil\<close>, \<open>Some ev\<close> a
  pointer to \<open>ev\<close>. The result is the pair the Go function returns (the response
  pointer and the error), the event the caller's pointer refers to afterwards, and the
  requests issued afterwards.
\<close>

definition SendEvent ::
  "(('msg, 'rea, 'mem, 'tm) request list \<Rightarrow> ('msg, 'rea, 'mem, 'tm) request \<Rightarrow> 'resp \<times> error option)
   \<Rightarrow> Channel \<Rightarrow> ('msg, 'rea, 'mem, 'tm) Event option \<Rightarrow> string
   \<Rightarrow> ('msg, 'rea, 'mem, 'tm) request list
   \<Rightarrow> ('resp option \<times> error option) \<times> ('msg, 'rea, 'mem, 'tm) Event option
       \<times> ('msg, 'rea, 'mem, 'tm) request list" where
  "SendEvent remote ch event userID sent =
    (case event of
       None \<Rightarrow> ((None, Some (errors_New ''event is nil'')), None, sent)
     | Some ev \<Rightarrow>
         let ev' = ev\<lparr>User := Some \<lparr>User.ID = userID\<rparr>\<rparr>;
             p = Join [''channels'', PathEscape (Channel.Type ch), PathEscape (Channel.ID ch),
                       ''event''];
             ((resp, err), sent') = makeRequest remote MethodPost p (EventEnvelope ev') sent
         in ((Some resp, err), Some ev', sent'))"

text \<open>\<^verbatim>\<open>Client.SendUserCustomEvent\<close>: the event is not written to, so only the result
  and the requests issued are returned.\<close>

definition SendUserCustomEvent ::
  "(('msg, 'rea, 'mem, 'tm) request list \<Rightarrow> ('msg, 'rea, 'mem, 'tm) request \<Rightarrow> 'resp \<times> error option)
   \<Rightarrow> string \<Rightarrow> 'tm UserCustomEvent option
   \<Rightarrow> ('msg, 'rea, 'mem, 'tm) request list
   \<Rightarrow> ('resp option \<times> error option) \<times> ('msg, 'rea, 'mem, 'tm) request list" where
  "SendUserCustomEvent remote targetUserID event sent =
    (case event of
       None \<Rightarrow> ((None, Some (errors_New ''event is nil'')), sent)
     | Some ev \<Rightarrow>
         if targetUserID = [] then
           ((None, Some (errors_New ''targetUserID should not be empty'')), sent)
         else
           let p = Join [''users'', PathEscape targetUserID, ''event''];
               ((resp, err), sent') =
                 makeRequest remote MethodPost p (UserCustomEventEnvelope ev) sent
           in ((Some resp, err), sent'))"

section \<open>The codec: \<^verbatim>\<open>encoding/json\<close> over the two structs\<close>

text \<open>
  The JSON form of a type that is declared outside the sources (or in the standard
  library): the zero value, \<^verbatim>\<open>json.Unmarshal\<close> of a value into a variable that holds
  \<open>cur\<close> (\<open>None\<close> when it fails), and \<^verbatim>\<open>json.Marshal\<close>.
\<close>

record 'a codec =
  zeroValue :: 'a
  unmarshal :: "json \<Rightarrow> 'a \<Rightarrow> 'a option"
  marshal :: "'a \<Rightarrow> json"

record ('msg, 'rea, 'mem, 'tm) codecs =
  codecMessage :: "'msg codec"
  codecReaction :: "'rea codec"
  codecChannel :: "Channel codec"
  codecChannelMember :: "'mem codec"
  codecMembers :: "'mem option list codec"
  codecUser :: "User codec"
  codecTime :: "'tm codec"

text \<open>
  What reflection gives \<^verbatim>\<open>encoding/json\<close> for one struct field: the name of its
  \<^verbatim>\<open>json\<close> tag, the \<^verbatim>\<open>omitempty\<close> option, whether the field of a struct value is
  empty, its encoding, and the decoding of a JSON value into it.
\<close>

record 's field =
  name :: string
  omitEmpty :: bool
  isEmptyValue :: "'s \<Rightarrow> bool"
  encodeField :: "'s \<Rightarrow> json"
  decodeField :: "json \<Rightarrow> 's \<Rightarrow> 's option"

text \<open>
  The field kinds of the two structs. A string takes a JSON string; an \<^verbatim>\<open>int\<close>
  takes an integer literal in the 64-bit range; a pointer takes \<^verbatim>\<open>null\<close> (it becomes
  \<^verbatim>\<open>nil\<close>) or a value decoded into what it points to (a fresh zero value when it is
  \<^verbatim>\<open>nil\<close>); a slice and a struct hand the value to their codec. For a string and an
  \<^verbatim>\<open>int\<close>, \<^verbatim>\<open>null\<close> leaves the field as it is. A struct is never empty.
\<close>

definition stringField ::
  "string \<Rightarrow> bool \<Rightarrow> ('s \<Rightarrow> string) \<Rightarrow> (string \<Rightarrow> 's \<Rightarrow> 's) \<Rightarrow> 's field" where
  "stringField n omit get put =
    \<lparr>name = n, omitEmpty = omit,
     isEmptyValue = (\<lambda>s. get s = []),
     encodeField = (\<lambda>s. JString (get s)),
     decodeField = (\<lambda>v s. case v of JString x \<Rightarrow> Some (put x s) | JNull \<Rightarrow> Some s | _ \<Rightarrow> None)\<rparr>"

definition intField ::
  "string \<Rightarrow> bool \<Rightarrow> ('s \<Rightarrow> 64 word) \<Rightarrow> (64 word \<Rightarrow> 's \<Rightarrow> 's) \<Rightarrow> 's field" where
  "intField n omit get put =
    \<lparr>name = n, omitEmpty = omit,
     isEmptyValue = (\<lambda>s. get s = 0),
     encodeField = (\<lambda>s. JNumber (sint (get s))),
     decodeField = (\<lambda>v s. case v of
         JNumber i \<Rightarrow> if - (2 ^ 63) \<le> i \<and> i < 2 ^ 63 then Some (put (word_of_int i) s) else None
       | JNull \<Rightarrow> Some s
       | _ \<Rightarrow> None)\<rparr>"

definition pointerField ::
  "string \<Rightarrow> bool \<Rightarrow> 'a codec \<Rightarrow> ('s \<Rightarrow> 'a option) \<Rightarrow> ('a option \<Rightarrow> 's \<Rightarrow> 's) \<Rightarrow> 's field" where
  "pointerField n omit c get put =
    \<lparr>name = n, omitEmpty = omit,
     isEmptyValue = (\<lambda>s. get s = None),
     encodeField = (\<lambda>s. case get s of None \<Rightarrow> JNull | Some x \<Rightarrow> marshal c x),
     decodeField = (\<lambda>v s. case v of
         JNull \<Rightarrow> Some (put None s)
       | _ \<Rightarrow> (case unmarshal c v (case get s of None \<Rightarrow> zeroValue c | Some x \<Rightarrow> x) of
                None \<Rightarrow> None
              | Some x \<Rightarrow> Some (put (Some x) s)))\<rparr>"

definition sliceField ::
  "string \<Rightarrow> bool \<Rightarrow> 'a list codec \<Rightarrow> ('s \<Rightarrow> 'a list) \<Rightarrow> ('a list \<Rightarrow> 's \<Rightarrow> 's) \<Rightarrow> 's field" where
  "sliceField n omit c get put =
    \<lparr>name = n, omitEmpty = omit,
     isEmptyValue = (\<lambda>s. get s = []),
     encodeField = (\<lambda>s. marshal c (get s)),
     decodeField = (\<lambda>v s. case unmarshal c v (get s) of
         None \<Rightarrow> None
       | Some x \<Rightarrow> Some (put x s))\<rparr>"

definition structField ::
  "string \<Rightarrow> bool \<Rightarrow> 'a codec \<Rightarrow> ('s \<Rightarrow> 'a) \<Rightarrow> ('a \<Rightarrow> 's \<Rightarrow> 's) \<Rightarrow> 's field" where
  "structField n omit c get put =
    \<lparr>name = n, omitEmpty = omit,
     isEmptyValue = (\<lambda>s. False),
     encodeField = (\<lambda>s. marshal c (get s)),
     decodeField = (\<lambda>v s. case unmarshal c v (get s) of
         None \<Rightarrow> None
       | Some x \<Rightarrow> Some (put x s))\<rparr>"

text \<open>
  The fields of \<^verbatim>\<open>eventForJSON\<close> and \<^verbatim>\<open>userCustomEventForJSON\<close>, in the order of the
  declarations, with the tags of the source. \<^verbatim>\<open>ExtraData\<close> has the tag \<^verbatim>\<open>json:"-"\<close>:
  it is no field for the JSON package.
\<close>

definition eventFields ::
  "('msg, 'rea, 'mem, 'tm) codecs \<Rightarrow> ('msg, 'rea, 'mem, 'tm) Event field list" where
  "eventFields cs =
    [stringField ''cid'' True CID (\<lambda>x e. e\<lparr>CID := x\<rparr>),
     stringField ''type'' False Event.Type (\<lambda>x e. e\<lparr>Event.Type := x\<rparr>),
     pointerField ''message'' True (codecMessage cs) Message (\<lambda>x e. e\<lparr>Message := x\<rparr>),
     pointerField ''reaction'' True (codecReaction cs) Reaction (\<lambda>x e. e\<lparr>Reaction := x\<rparr>),
     pointerField ''channel'' True (codecChannel cs) Channel (\<lambda>x e. e\<lparr>Channel := x\<rparr>),
     pointerField ''member'' True (codecChannelMember cs) Member (\<lambda>x e. e\<lparr>Member := x\<rparr>),
     sliceField ''members'' True (codecMembers cs) Members (\<lambda>x e. e\<lparr>Members := x\<rparr>),
     pointerField ''user'' True (codecUser cs) User (\<lambda>x e. e\<lparr>User := x\<rparr>),
     stringField ''user_id'' True UserID (\<lambda>x e. e\<lparr>UserID := x\<rparr>),
     pointerField ''me'' True (codecUser cs) OwnUser (\<lambda>x e. e\<lparr>OwnUser := x\<rparr>),
     intField ''watcher_count'' True WatcherCount (\<lambda>x e. e\<lparr>WatcherCount := x\<rparr>),
     structField ''created_at'' True (codecTime cs) Event.CreatedAt
       (\<lambda>x e. e\<lparr>Event.CreatedAt := x\<rparr>)]"

definition userCustomEventFields :: "'tm codec \<Rightarrow> 'tm UserCustomEvent field list" where
  "userCustomEventFields ct =
    [stringField ''type'' False UserCustomEvent.Type (\<lambda>x e. e\<lparr>UserCustomEvent.Type := x\<rparr>),
     structField ''created_at'' True ct UserCustomEvent.CreatedAt
       (\<lambda>x e. e\<lparr>UserCustomEvent.CreatedAt := x\<rparr>)]"

text \<open>The zero values \<^verbatim>\<open>var e2 eventForJSON\<close> and \<^verbatim>\<open>var e2 userCustomEventForJSON\<close>.\<close>

definition zeroEvent :: "('msg, 'rea, 'mem, 'tm) codecs \<Rightarrow> ('msg, 'rea, 'mem, 'tm) Event" where
  "zeroEvent cs =
    \<lparr>CID = [], Type = [], Message = None, Reaction = None, Channel = None, Member = None,
     Members = [], User = None, UserID = [], OwnUser = None, WatcherCount = 0,
     ExtraData = Map.empty, CreatedAt = zeroValue (codecTime cs)\<rparr>"

definition zeroUserCustomEvent :: "'tm codec \<Rightarrow> 'tm UserCustomEvent" where
  "zeroUserCustomEvent ct =
    \<lparr>UserCustomEvent.Type = [], UserCustomEvent.ExtraData = Map.empty,
     UserCustomEvent.CreatedAt = zeroValue ct\<rparr>"

text \<open>
  How the decoder finds the field of an object key: the field of that exact name, else
  the first field whose name is equal to the key under case folding
  (\<^verbatim>\<open>bytes.EqualFold\<close>). \<open>foldName\<close> is the folding of \<^verbatim>\<open>encoding/json\<close> on the bytes
  of a UTF-8 string: an ASCII letter goes to its upper case, and so do the two letters
  outside ASCII whose fold set holds an ASCII letter, U+017F (bytes C5 BF, to \<open>S\<close>) and
  U+212A (bytes E2 84 AA, to \<open>K\<close>). Every other byte is kept, which decides equality
  with the folded name of a field as Go does, field names being ASCII. The first
  argument of \<open>foldFrom\<close> counts the bytes still to skip.
\<close>

definition toUpper :: "char \<Rightarrow> char" where
  "toUpper c = (if inRange (CHR ''a'') (CHR ''z'') c then char_of (of_char c - (32::nat)) else c)"

fun foldFrom :: "nat \<Rightarrow> string \<Rightarrow> string" where
  "foldFrom k [] = []"
| "foldFrom (Suc k) (c # cs) = foldFrom k cs"
| "foldFrom 0 (c # cs) =
    (if c = CHR 0xC5 \<and> take 1 cs = [CHR 0xBF] then CHR ''S'' # foldFrom 1 cs
     else if c = CHR 0xE2 \<and> take 2 cs = [CHR 0x84, CHR 0xAA] then CHR ''K'' # foldFrom 2 cs
     else toUpper c # foldFrom 0 cs)"

definition foldName :: "string \<Rightarrow> string" where
  "foldName s = foldFrom 0 s"

definition findField :: "'s field list \<Rightarrow> string \<Rightarrow> 's field option" where
  "findField fs key =
    (case find (\<lambda>f. name f = key) fs of
       Some f \<Rightarrow> Some f
     | None \<Rightarrow> find (\<lambda>f. foldName (name f) = foldName key) fs)"

text \<open>
  Decoding the members of an object into a struct, in the order of the text: a key with
  no field is skipped, a value that does not fit its field makes the call fail. (Go
  goes on after a type error and reports it at the end; the struct it was filling is
  the local \<^verbatim>\<open>e2\<close>, dropped on an error.)
\<close>

fun object :: "'s field list \<Rightarrow> (string \<times> json) list \<Rightarrow> 's \<Rightarrow> 's option" where
  "object fs [] s = Some s"
| "object fs ((key, v) # kvs) s =
    (case findField fs key of
       None \<Rightarrow> object fs kvs s
     | Some f \<Rightarrow> (case decodeField f v s of None \<Rightarrow> None | Some s' \<Rightarrow> object fs kvs s'))"

text \<open>
  \<^verbatim>\<open>json.Unmarshal(data, &s)\<close> for a struct \<open>s\<close>: \<^verbatim>\<open>null\<close> changes nothing, an object
  is decoded member by member, any other value is a type error.
\<close>

definition Unmarshal_struct :: "'s field list \<Rightarrow> data \<Rightarrow> 's \<Rightarrow> error + 's" where
  "Unmarshal_struct fs d s =
    (case d of
       None \<Rightarrow> Inl SyntaxError
     | Some JNull \<Rightarrow> Inr s
     | Some (JObject kvs) \<Rightarrow>
         (case object fs kvs s of None \<Rightarrow> Inl UnmarshalTypeError | Some s' \<Rightarrow> Inr s')
     | Some _ \<Rightarrow> Inl UnmarshalTypeError)"

text \<open>
  \<^verbatim>\<open>json.Unmarshal(data, &m)\<close> for a \<^verbatim>\<open>map[string]interface{}\<close>: \<^verbatim>\<open>null\<close> makes the
  map \<^verbatim>\<open>nil\<close>, an object stores its members into the map one after the other (a later
  duplicate wins), any other value is a type error. A value of any kind fits
  \<^verbatim>\<open>interface{}\<close>; the map keeps it as the JSON value it is.
\<close>

definition Unmarshal_map :: "data \<Rightarrow> (string \<rightharpoonup> json) \<Rightarrow> error + (string \<rightharpoonup> json)" where
  "Unmarshal_map d m =
    (case d of
       None \<Rightarrow> Inl SyntaxError
     | Some JNull \<Rightarrow> Inr Map.empty
     | Some (JObject kvs) \<Rightarrow> Inr (foldl (\<lambda>m' (k, v). m'(k \<mapsto> v)) m kvs)
     | Some _ \<Rightarrow> Inl UnmarshalTypeError)"

text \<open>
  \<^verbatim>\<open>json.Marshal\<close> of a struct, as the members it writes: every field in order, but
  a field with \<^verbatim>\<open>omitempty\<close> whose value is empty.
\<close>

definition Marshal_struct :: "'s field list \<Rightarrow> 's \<Rightarrow> (string \<times> json) list" where
  "Marshal_struct fs s =
    map (\<lambda>f. (name f, encodeField f s)) (filter (\<lambda>f. \<not> (omitEmpty f \<and> isEmptyValue f s)) fs)"

text \<open>
  Modelled from the spec: \<^verbatim>\<open>removeFromMap\<close> is not among the sources. Section 4.1:
  the extra map is the document with every key that matches a known field's wire name
  removed, whether or not that field was present or non-empty in the document.
\<close>

definition removeFromMap :: "(string \<rightharpoonup> json) \<Rightarrow> 's field list \<Rightarrow> (string \<rightharpoonup> json)" where
  "removeFromMap m fs = m |` (- set (map name fs))"

text \<open>
  Modelled from the spec: \<^verbatim>\<open>addToMapAndMarshal\<close> is not among the sources. Section
  4.1: the document is the wire-visible key/value set of the known fields, merged with
  every key of the extra map that is not already one of those wire-visible keys; it is
  one flat object whose keys are unique. The spec names no failure of encoding.
\<close>

definition addToMapAndMarshal ::
  "(string \<rightharpoonup> json) \<Rightarrow> (string \<times> json) list \<Rightarrow> error + (string \<rightharpoonup> json)" where
  "addToMapAndMarshal m known =
    Inr (map_of known ++ (m |` (- fst ` set known)))"

text \<open>
  \<^verbatim>\<open>Event.UnmarshalJSON\<close> and \<^verbatim>\<open>UserCustomEvent.UnmarshalJSON\<close>. The receiver is a
  pointer: the result is the returned error (\<open>None\<close> is \<^verbatim>\<open>nil\<close>) and the value the
  receiver holds afterwards.
\<close>

definition UnmarshalJSON_Event ::
  "('msg, 'rea, 'mem, 'tm) codecs \<Rightarrow> ('msg, 'rea, 'mem, 'tm) Event \<Rightarrow> data
   \<Rightarrow> error option \<times> ('msg, 'rea, 'mem, 'tm) Event" where
  "UnmarshalJSON_Event cs e d =
    (case Unmarshal_struct (eventFields cs) d (zeroEvent cs) of
       Inl err \<Rightarrow> (Some err, e)
     | Inr e2 \<Rightarrow>
        (case Unmarshal_map d (Event.ExtraData e2) of
           Inl err \<Rightarrow> (Some err, e2)
         | Inr m \<Rightarrow> (None, e2\<lparr>Event.ExtraData := removeFromMap m (eventFields cs)\<rparr>)))"

definition UnmarshalJSON_UserCustomEvent ::
  "'tm codec \<Rightarrow> 'tm UserCustomEvent \<Rightarrow> data \<Rightarrow> error option \<times> 'tm UserCustomEvent" where
  "UnmarshalJSON_UserCustomEvent ct e d =
    (case Unmarshal_struct (userCustomEventFields ct) d (zeroUserCustomEvent ct) of
       Inl err \<Rightarrow> (Some err, e)
     | Inr e2 \<Rightarrow>
        (case Unmarshal_map d (UserCustomEvent.ExtraData e2) of
           Inl err \<Rightarrow> (Some err, e2)
         | Inr m \<Rightarrow>
            (None, e2\<lparr>UserCustomEvent.ExtraData := removeFromMap m (userCustomEventFields ct)\<rparr>)))"

text \<open>
  \<^verbatim>\<open>Event.MarshalJSON\<close> and \<^verbatim>\<open>UserCustomEvent.MarshalJSON\<close>; the document is given as
  the map from its keys to their values.
\<close>

definition MarshalJSON_Event ::
  "('msg, 'rea, 'mem, 'tm) codecs \<Rightarrow> ('msg, 'rea, 'mem, 'tm) Event \<Rightarrow> error + (string \<rightharpoonup> json)" where
  "MarshalJSON_Event cs e =
    addToMapAndMarshal (Event.ExtraData e) (Marshal_struct (eventFields cs) e)"

definition MarshalJSON_UserCustomEvent ::
  "'tm codec \<Rightarrow> 'tm UserCustomEvent \<Rightarrow> error + (string \<rightharpoonup> json)" where
  "MarshalJSON_UserCustomEvent ct e =
    addToMapAndMarshal (UserCustomEvent.ExtraData e) (Marshal_struct (userCustomEventFields ct) e)"

text \<open>
  The bytes \<open>d\<close> spell the document \<open>r\<close> that an encoder returned: they are one object
  that writes each key of the document once, with its value. (\<^verbatim>\<open>json.Marshal\<close> writes
  the keys of a map in sorted order; the theorems hold for every order.)
\<close>

definition spells :: "data \<Rightarrow> error + (string \<rightharpoonup> json) \<Rightarrow> bool" where
  "spells d r =
    (case d of
       Some (JObject kvs) \<Rightarrow>
         (case r of Inr doc \<Rightarrow> distinct (map fst kvs) \<and> map_of kvs = doc | Inl _ \<Rightarrow> False)
     | _ \<Rightarrow> False)"

text \<open>The value an encoded document carries for a key.\<close>

definition valueAt :: "error + (string \<rightharpoonup> json) \<Rightarrow> string \<Rightarrow> json option" where
  "valueAt r k = (case r of Inr doc \<Rightarrow> doc k | Inl _ \<Rightarrow> None)"

text \<open>
  The conditions on the nested codecs under which an event survives encoding and
  decoding: a value that a pointer refers to is not written as \<^verbatim>\<open>null\<close> and is
  read back from what was written, into a fresh zero value; the members and the
  time stamp are read back from what was written.
\<close>

definition readsBack :: "'a codec \<Rightarrow> 'a \<Rightarrow> bool" where
  "readsBack c x = (marshal c x \<noteq> JNull \<and> unmarshal c (marshal c x) (zeroValue c) = Some x)"

definition readsBackPtr :: "'a codec \<Rightarrow> 'a option \<Rightarrow> bool" where
  "readsBackPtr c p = (case p of None \<Rightarrow> True | Some x \<Rightarrow> readsBack c x)"

definition readsBackValue :: "'a codec \<Rightarrow> 'a \<Rightarrow> bool" where
  "readsBackValue c x = (unmarshal c (marshal c x) (zeroValue c) = Some x)"

definition readsBackEvent ::
  "('msg, 'rea, 'mem, 'tm) codecs \<Rightarrow> ('msg, 'rea, 'mem, 'tm) Event \<Rightarrow> bool" where
  "readsBackEvent cs K =
    (readsBackPtr (codecMessage cs) (Message K)
     \<and> readsBackPtr (codecReaction cs) (Reaction K)
     \<and> readsBackPtr (codecChannel cs) (Channel K)
     \<and> readsBackPtr (codecChannelMember cs) (Member K)
     \<and> (if Members K = [] then True
        else unmarshal (codecMembers cs) (marshal (codecMembers cs) (Members K)) [] = Some (Members K))
     \<and> readsBackPtr (codecUser cs) (User K)
     \<and> readsBackPtr (codecUser cs) (OwnUser K)
     \<and> readsBackValue (codecTime cs) (Event.CreatedAt K))"

text \<open>
  The event while an encoded \<open>K\<close> is decoded: the fields whose names are in \<open>S\<close> hold
  the values of \<open>K\<close>, the others are zero.
\<close>

definition partEvent ::
  "('msg, 'rea, 'mem, 'tm) codecs \<Rightarrow> ('msg, 'rea, 'mem, 'tm) Event \<Rightarrow> string set
   \<Rightarrow> ('msg, 'rea, 'mem, 'tm) Event" where
  "partEvent cs K S =
    \<lparr>CID = (if ''cid'' \<in> S then CID K else []),
     Type = (if ''type'' \<in> S then Event.Type K else []),
     Message = (if ''message'' \<in> S then Message K else None),
     Reaction = (if ''reaction'' \<in> S then Reaction K else None),
     Channel = (if ''channel'' \<in> S then Channel K else None),
     Member = (if ''member'' \<in> S then Member K else None),
     Members = (if ''members'' \<in> S then Members K else []),
     User = (if ''user'' \<in> S then User K else None),
     UserID = (if ''user_id'' \<in> S then UserID K else []),
     OwnUser = (if ''me'' \<in> S then OwnUser K else None),
     WatcherCount = (if ''watcher_count'' \<in> S then WatcherCount K else 0),
     ExtraData = Map.empty,
     CreatedAt = (if ''created_at'' \<in> S then Event.CreatedAt K else zeroValue (codecTime cs))\<rparr>"


section \<open>Concrete codecs, events and documents\<close>

text \<open>
  One choice of the nested codecs, on which the theorems below are run: the time is
  the text of its RFC 3339 form, a message, a reaction and a channel member are kept
  as the JSON object they are written as, a user is written as an object with the key
  \<^verbatim>\<open>id\<close>, a channel with the keys \<^verbatim>\<open>id\<close> and \<^verbatim>\<open>type\<close>.
\<close>

definition exampleTime :: "string codec" where
  "exampleTime =
    \<lparr>zeroValue = ''0001-01-01T00:00:00Z'',
     unmarshal = (\<lambda>v cur. case v of JString s \<Rightarrow> Some s | JNull \<Rightarrow> Some cur | _ \<Rightarrow> None),
     marshal = JString\<rparr>"

definition exampleRaw :: "json codec" where
  "exampleRaw =
    \<lparr>zeroValue = JObject [],
     unmarshal = (\<lambda>v cur. case v of JObject kvs \<Rightarrow> Some v | _ \<Rightarrow> None),
     marshal = (\<lambda>x. x)\<rparr>"

definition exampleUser :: "User codec" where
  "exampleUser =
    \<lparr>zeroValue = \<lparr>User.ID = []\<rparr>,
     unmarshal = (\<lambda>v cur. case v of
         JObject kvs \<Rightarrow> (case map_of kvs ''id'' of
             Some (JString s) \<Rightarrow> Some \<lparr>User.ID = s\<rparr>
           | Some _ \<Rightarrow> None
           | None \<Rightarrow> Some cur)
       | _ \<Rightarrow> None),
     marshal = (\<lambda>u. JObject [(''id'', JString (User.ID u))])\<rparr>"

definition exampleChannel :: "Channel codec" where
  "exampleChannel =
    \<lparr>zeroValue = \<lparr>Channel.ID = [], Channel.Type = []\<rparr>,
     unmarshal = (\<lambda>v cur. case v of
         JObject kvs \<Rightarrow> (case (map_of kvs ''id'', map_of kvs ''type'') of
             (Some (JString i), Some (JString t)) \<Rightarrow> Some \<lparr>Channel.ID = i, Channel.Type = t\<rparr>
           | _ \<Rightarrow> None)
       | _ \<Rightarrow> None),
     marshal = (\<lambda>c. JObject [(''id'', JString (Channel.ID c)), (''type'', JString (Channel.Type c))])\<rparr>"

definition exampleMembers :: "json option list codec" where
  "exampleMembers =
    \<lparr>zeroValue = [],
     unmarshal = (\<lambda>v cur. case v of
         JArray vs \<Rightarrow> Some (map (\<lambda>x. if x = JNull then None else Some x) vs)
       | JNull \<Rightarrow> Some []
       | _ \<Rightarrow> None),
     marshal = (\<lambda>xs. JArray (map (\<lambda>x. case x of None \<Rightarrow> JNull | Some v \<Rightarrow> v) xs))\<rparr>"

definition exampleCodecs :: "(json, json, json, string) codecs" where
  "exampleCodecs =
    \<lparr>codecMessage = exampleRaw, codecReaction = exampleRaw, codecChannel = exampleChannel,
     codecChannelMember = exampleRaw, codecMembers = exampleMembers, codecUser = exampleUser,
     codecTime = exampleTime\<rparr>"

text \<open>An event and a user event with one extra key each, and the documents that
  \<^verbatim>\<open>json.Marshal\<close> writes for them (keys in sorted order).\<close>

definition exampleEvent :: "(json, json, json, string) Event" where
  "exampleEvent =
    \<lparr>CID = ''messaging:general'', Type = ''message.new'', Message = None, Reaction = None,
     Channel = None, Member = None, Members = [], User = Some \<lparr>User.ID = ''bob''\<rparr>,
     UserID = ''bob'', OwnUser = None, WatcherCount = 3,
     ExtraData = [''custom'' \<mapsto> JBool True],
     CreatedAt = ''2020-01-02T03:04:05Z''\<rparr>"


definition exampleUserCustomEvent :: "string UserCustomEvent" where
  "exampleUserCustomEvent =
    \<lparr>UserCustomEvent.Type = ''friendship_request'',
     UserCustomEvent.ExtraData = [''text'' \<mapsto> JString ''hi''],
     UserCustomEvent.CreatedAt = ''2020-01-02T03:04:05Z''\<rparr>"




definition omittedFieldEvent :: "(json, json, json, string) Event" where
  "omittedFieldEvent =
    (zeroEvent exampleCodecs)\<lparr>Event.Type := ''message.new'',
      Event.ExtraData := [''cid'' \<mapsto> JString ''x'']\<rparr>"

definition shadowedEvent :: "(json, json, json, string) Event" where
  "shadowedEvent = exampleEvent\<lparr>Event.ExtraData := [''cid'' \<mapsto> JString ''other'']\<rparr>"

definition shadowedUserCustomEvent :: "string UserCustomEvent" where
  "shadowedUserCustomEvent =
     exampleUserCustomEvent\<lparr>UserCustomEvent.ExtraData := [''type'' \<mapsto> JString ''other'']\<rparr>"

text \<open>
  The event of the spec's precedence example, \<^verbatim>\<open>Event{Type: "message.new",
  ExtraData: {"type": "bogus"}}\<close>, and its document under the concrete codecs.
\<close>

definition bogusEvent :: "('msg, 'rea, 'mem, 'tm) codecs \<Rightarrow> ('msg, 'rea, 'mem, 'tm) Event" where
  "bogusEvent cs =
    (zeroEvent cs)\<lparr>Event.Type := ''message.new'',
      Event.ExtraData := [''type'' \<mapsto> JString ''bogus'']\<rparr>"

definition bogusData :: data where
  "bogusData = Some (JObject
     [(''created_at'', JString ''0001-01-01T00:00:00Z''),
      (''type'', JString ''message.new'')])"

text \<open>
  Documents that send a known field as the empty string next to an unknown key, the
  values they decode to, and a flat object whose \<^verbatim>\<open>type\<close> is a number.
\<close>

definition emptyCidData :: data where
  "emptyCidData = Some (JObject
     [(''cid'', JString []), (''custom'', JNumber 1), (''type'', JString ''some.future.event'')])"

definition emptyCidEvent :: "(json, json, json, string) Event" where
  "emptyCidEvent =
    (zeroEvent exampleCodecs)\<lparr>Event.Type := ''some.future.event'',
      Event.ExtraData := [''custom'' \<mapsto> JNumber 1]\<rparr>"

definition emptyTypeData :: data where
  "emptyTypeData = Some (JObject [(''custom'', JNumber 1), (''type'', JString [])])"

definition emptyTypeUserCustomEvent :: "string UserCustomEvent" where
  "emptyTypeUserCustomEvent =
    (zeroUserCustomEvent exampleTime)\<lparr>UserCustomEvent.ExtraData := [''custom'' \<mapsto> JNumber 1]\<rparr>"


section \<open>Dispatch: the validation guards\<close>

text \<open>
  C5. For every channel and every userID, \<open>SendEvent\<close> with a nil event returns no
  response and the error \<^verbatim>\<open>event is nil\<close>; no request is issued (the list of requests
  is the one before the call) and there is no event to write to: the check comes
  before the assignment to \<^verbatim>\<open>event.User\<close> and before the envelope.
\<close>

theorem SendEvent_nil_event:
  "SendEvent remote ch None userID sent = ((None, Some (errors_New ''event is nil'')), None, sent)"
  by (simp add: SendEvent_def)

text \<open>
  C6. \<open>SendUserCustomEvent\<close> returns the error \<^verbatim>\<open>event is nil\<close> for a nil event, whatever
  the target, and the error \<^verbatim>\<open>targetUserID should not be empty\<close> for an empty target
  with an event that is not nil; in both cases the list of requests issued is the one
  before the call.
\<close>

theorem SendUserCustomEvent_guards:
  "SendUserCustomEvent remote targetUserID None sent
     = ((None, Some (errors_New ''event is nil'')), sent)
   \<and> SendUserCustomEvent remote [] (Some ev) sent
     = ((None, Some (errors_New ''targetUserID should not be empty'')), sent)"
  by (simp add: SendUserCustomEvent_def)

text \<open>
  C10. With a nil event and an empty target at once, \<open>SendUserCustomEvent\<close> returns
  \<^verbatim>\<open>event is nil\<close>: the nil check is the first of the two.
\<close>

theorem SendUserCustomEvent_nil_before_empty:
  "fst (SendUserCustomEvent remote [] None sent) = (None, Some (errors_New ''event is nil''))"
  by (simp add: SendUserCustomEvent_def)

text \<open>
  C7. For every event that is not nil and every userID, \<open>SendEvent\<close> overwrites the
  event's \<open>User\<close> with \<^verbatim>\<open>&User{ID: userID}\<close> before the request is made: the event
  the caller's pointer refers to afterwards, and the event in the body of the one
  request issued, both carry that user, whatever \<open>User\<close> held before.
\<close>

theorem SendEvent_overwrites_User:
  "SendEvent remote ch (Some ev) userID sent =
     ((Some (fst (remote sent
          \<lparr>reqMethod = MethodPost,
           reqPath = Join [''channels'', PathEscape (Channel.Type ch), PathEscape (Channel.ID ch),
                        ''event''],
           reqBody = EventEnvelope (ev\<lparr>User := Some \<lparr>User.ID = userID\<rparr>\<rparr>)\<rparr>)),
       snd (remote sent
          \<lparr>reqMethod = MethodPost,
           reqPath = Join [''channels'', PathEscape (Channel.Type ch), PathEscape (Channel.ID ch),
                        ''event''],
           reqBody = EventEnvelope (ev\<lparr>User := Some \<lparr>User.ID = userID\<rparr>\<rparr>)\<rparr>)),
      Some (ev\<lparr>User := Some \<lparr>User.ID = userID\<rparr>\<rparr>),
      sent @ [\<lparr>reqMethod = MethodPost,
           reqPath = Join [''channels'', PathEscape (Channel.Type ch), PathEscape (Channel.ID ch),
                        ''event''],
           reqBody = EventEnvelope (ev\<lparr>User := Some \<lparr>User.ID = userID\<rparr>\<rparr>)\<rparr>])"
  by (simp add: SendEvent_def makeRequest_def Let_def split: prod.split)

section \<open>The decoder on an encoded document\<close>

lemma find_name_distinct:
  "distinct (map name fs) \<Longrightarrow> f \<in> set fs \<Longrightarrow> find (\<lambda>g. name g = name f) fs = Some f"
  by (induction fs) (auto simp: image_iff)

lemma findField_name:
  "distinct (map name fs) \<Longrightarrow> f \<in> set fs \<Longrightarrow> findField fs (name f) = Some f"
  by (simp add: findField_def find_name_distinct)

lemma findField_None_not_name:
  "findField fs k = None \<Longrightarrow> k \<notin> name ` set fs"
  by (auto simp: findField_def find_None_iff split: option.splits)

lemma findField_Some_mem:
  "findField fs k = Some f \<Longrightarrow> f \<in> set fs"
  by (auto simp: findField_def find_Some_iff split: option.splits)

lemma foldl_upd_map_of:
  "foldl (\<lambda>m' (k, v). m'(k \<mapsto> v)) m kvs = m ++ map_of (rev kvs)"
proof (induction kvs arbitrary: m)
  case Nil
  show ?case by simp
next
  case (Cons p kvs)
  obtain k v where p: "p = (k, v)" by (cases p)
  have "foldl (\<lambda>m' (k, v). m'(k \<mapsto> v)) m (p # kvs)
      = foldl (\<lambda>m' (k, v). m'(k \<mapsto> v)) (m(k \<mapsto> v)) kvs"
    by (simp only: p foldl_Cons case_prod_conv)
  also have "\<dots> = m(k \<mapsto> v) ++ map_of (rev kvs)"
    by (rule Cons.IH)
  also have "\<dots> = m ++ map_of (rev (p # kvs))"
    unfolding p by (rule ext) (simp add: map_add_def split: option.split)
  finally show ?case .
qed

lemma map_of_rev_distinct:
  "distinct (map fst kvs) \<Longrightarrow> map_of (rev kvs) = map_of kvs"
  by (subst map_of_inject_set) (simp_all add: rev_map [symmetric])

lemma object_encoded:
  fixes part :: "string set \<Rightarrow> 's"
  assumes dist: "distinct (map name fs)"
    and step: "\<And>f S. f \<in> set fs \<Longrightarrow> name f \<notin> S \<Longrightarrow> \<not> (omitEmpty f \<and> isEmptyValue f K)
      \<Longrightarrow> decodeField f (encodeField f K) (part S) = Some (part (insert (name f) S))"
  shows "distinct (map fst kvs) \<Longrightarrow>
    (\<And>k v. (k, v) \<in> set kvs \<Longrightarrow>
        findField fs k = None
        \<or> (\<exists>f \<in> set fs. name f = k \<and> \<not> (omitEmpty f \<and> isEmptyValue f K) \<and> v = encodeField f K)) \<Longrightarrow>
    S \<inter> fst ` set kvs = {} \<Longrightarrow>
    object fs kvs (part S) = Some (part (S \<union> (fst ` set kvs \<inter> name ` set fs)))"
proof (induction kvs arbitrary: S)
  case Nil
  show ?case by simp
next
  case (Cons p kvs)
  obtain k v where p: "p = (k, v)" by (cases p)
  from Cons.prems(1) p have dk: "k \<notin> fst ` set kvs" and dr: "distinct (map fst kvs)" by auto
  from Cons.prems(3) p have kS: "k \<notin> S" and Sr: "S \<inter> fst ` set kvs = {}" by auto
  have rest: "\<And>k' v'. (k', v') \<in> set kvs \<Longrightarrow>
        findField fs k' = None
        \<or> (\<exists>f \<in> set fs. name f = k' \<and> \<not> (omitEmpty f \<and> isEmptyValue f K) \<and> v' = encodeField f K)"
    using Cons.prems(2) by simp
  from Cons.prems(2) [of k v] p
  consider (skip) "findField fs k = None"
    | (hit) f where "f \<in> set fs" "name f = k" "\<not> (omitEmpty f \<and> isEmptyValue f K)" "v = encodeField f K"
    by auto
  then show ?case
  proof cases
    case skip
    then have "k \<notin> name ` set fs" by (rule findField_None_not_name)
    then have "S \<union> (fst ` set (p # kvs) \<inter> name ` set fs) = S \<union> (fst ` set kvs \<inter> name ` set fs)"
      using p by auto
    with skip p Cons.IH [OF dr rest Sr] show ?thesis by simp
  next
    case hit
    from hit(1,2) dist have ff: "findField fs k = Some f" using findField_name by blast
    from hit kS have dec: "decodeField f v (part S) = Some (part (insert k S))"
      using step [of f S] by simp
    from dk Sr have "insert k S \<inter> fst ` set kvs = {}" by auto
    from Cons.IH [OF dr rest this]
    have "object fs kvs (part (insert k S)) = Some (part (insert k S \<union> (fst ` set kvs \<inter> name ` set fs)))" .
    moreover have "insert k S \<union> (fst ` set kvs \<inter> name ` set fs) = S \<union> (fst ` set (p # kvs) \<inter> name ` set fs)"
      using p hit(1,2) by auto
    ultimately show ?thesis using p ff dec by simp
  qed
qed

lemma Marshal_struct_keys:
  "n \<in> fst ` set (Marshal_struct fs s) \<longleftrightarrow> (\<exists>f \<in> set fs. name f = n \<and> \<not> (omitEmpty f \<and> isEmptyValue f s))"
  by (auto simp: Marshal_struct_def image_iff)

lemma Marshal_struct_mem:
  "(k, v) \<in> set (Marshal_struct fs s) \<longleftrightarrow>
     (\<exists>f \<in> set fs. name f = k \<and> \<not> (omitEmpty f \<and> isEmptyValue f s) \<and> v = encodeField f s)"
  by (auto simp: Marshal_struct_def image_iff)

lemma eventFields_distinct: "distinct (map name (eventFields cs))"
  by (simp add: eventFields_def stringField_def pointerField_def sliceField_def intField_def
      structField_def)

lemma pointerField_simps:
  "name (pointerField n omit c get put) = n"
  "omitEmpty (pointerField n omit c get put) = omit"
  "isEmptyValue (pointerField n omit c get put) s = (get s = None)"
  "encodeField (pointerField n omit c get put) s = (case get s of None \<Rightarrow> JNull | Some x \<Rightarrow> marshal c x)"
  by (simp_all add: pointerField_def)

lemma pointerField_decode:
  "v \<noteq> JNull \<Longrightarrow> decodeField (pointerField n omit c get put) v s =
     (case unmarshal c v (case get s of None \<Rightarrow> zeroValue c | Some x \<Rightarrow> x) of
        None \<Rightarrow> None | Some x \<Rightarrow> Some (put (Some x) s))"
  by (cases v) (simp_all add: pointerField_def)

lemma pointerField_reads:
  "readsBackPtr c (get K) \<Longrightarrow> get K \<noteq> None \<Longrightarrow> get s = None \<Longrightarrow>
   decodeField (pointerField n omit c get put) (encodeField (pointerField n omit c get put) K) s
     = Some (put (get K) s)"
  by (auto simp: readsBackPtr_def readsBack_def pointerField_simps pointerField_decode)

lemma stringField_simps:
  "name (stringField n omit get put) = n"
  "omitEmpty (stringField n omit get put) = omit"
  "isEmptyValue (stringField n omit get put) s = (get s = [])"
  "decodeField (stringField n omit get put) (encodeField (stringField n omit get put) K) s
     = Some (put (get K) s)"
  by (simp_all add: stringField_def)

lemma sint64_range: "- (2 ^ 63) \<le> sint (w :: 64 word) \<and> sint w < 2 ^ 63"
  using sint_ge [of w] sint_lt [of w] by simp

lemma intField_simps:
  "name (intField n omit get put) = n"
  "omitEmpty (intField n omit get put) = omit"
  "isEmptyValue (intField n omit get put) s = (get s = 0)"
  "decodeField (intField n omit get put) (encodeField (intField n omit get put) K) s
     = Some (put (get K) s)"
  using sint64_range by (simp_all add: intField_def)

lemma sliceField_simps:
  "name (sliceField n omit c get put) = n"
  "omitEmpty (sliceField n omit c get put) = omit"
  "isEmptyValue (sliceField n omit c get put) s = (get s = [])"
  "decodeField (sliceField n omit c get put) (encodeField (sliceField n omit c get put) K) s
     = (case unmarshal c (marshal c (get K)) (get s) of None \<Rightarrow> None | Some x \<Rightarrow> Some (put x s))"
  by (simp_all add: sliceField_def)

lemma structField_simps:
  "name (structField n omit c get put) = n"
  "isEmptyValue (structField n omit c get put) s = False"
  "decodeField (structField n omit c get put) (encodeField (structField n omit c get put) K) s
     = (case unmarshal c (marshal c (get K)) (get s) of None \<Rightarrow> None | Some x \<Rightarrow> Some (put x s))"
  by (simp_all add: structField_def)

lemmas field_simps_all = pointerField_simps stringField_simps intField_simps sliceField_simps
  structField_simps

lemma partEvent_step:
  assumes rb: "readsBackEvent cs K"
    and f: "f \<in> set (eventFields cs)"
    and S: "name f \<notin> S"
    and vis: "\<not> (omitEmpty f \<and> isEmptyValue f K)"
  shows "decodeField f (encodeField f K) (partEvent cs K S) = Some (partEvent cs K (insert (name f) S))"
proof -
  from f consider
      "f = stringField ''cid'' True CID (\<lambda>x e. e\<lparr>CID := x\<rparr>)"
    | "f = stringField ''type'' False Event.Type (\<lambda>x e. e\<lparr>Event.Type := x\<rparr>)"
    | "f = pointerField ''message'' True (codecMessage cs) Message (\<lambda>x e. e\<lparr>Message := x\<rparr>)"
    | "f = pointerField ''reaction'' True (codecReaction cs) Reaction (\<lambda>x e. e\<lparr>Reaction := x\<rparr>)"
    | "f = pointerField ''channel'' True (codecChannel cs) Channel (\<lambda>x e. e\<lparr>Channel := x\<rparr>)"
    | "f = pointerField ''member'' True (codecChannelMember cs) Member (\<lambda>x e. e\<lparr>Member := x\<rparr>)"
    | "f = sliceField ''members'' True (codecMembers cs) Members (\<lambda>x e. e\<lparr>Members := x\<rparr>)"
    | "f = pointerField ''user'' True (codecUser cs) User (\<lambda>x e. e\<lparr>User := x\<rparr>)"
    | "f = stringField ''user_id'' True UserID (\<lambda>x e. e\<lparr>UserID := x\<rparr>)"
    | "f = pointerField ''me'' True (codecUser cs) OwnUser (\<lambda>x e. e\<lparr>OwnUser := x\<rparr>)"
    | "f = intField ''watcher_count'' True WatcherCount (\<lambda>x e. e\<lparr>WatcherCount := x\<rparr>)"
    | "f = structField ''created_at'' True (codecTime cs) Event.CreatedAt
             (\<lambda>x e. e\<lparr>Event.CreatedAt := x\<rparr>)"
    by (auto simp: eventFields_def)
  then show ?thesis
  proof cases
    case 1
    with S show ?thesis by (simp add: stringField_simps partEvent_def)
  next
    case 2
    with S show ?thesis by (simp add: stringField_simps partEvent_def)
  next
    case 3
    with S vis rb have "readsBackPtr (codecMessage cs) (Message K)" "Message K \<noteq> None"
      "Message (partEvent cs K S) = None"
      by (simp_all add: pointerField_simps partEvent_def readsBackEvent_def)
    with 3 show ?thesis by (simp add: pointerField_reads) (simp add: pointerField_simps partEvent_def)
  next
    case 4
    with S vis rb have "readsBackPtr (codecReaction cs) (Reaction K)" "Reaction K \<noteq> None"
      "Reaction (partEvent cs K S) = None"
      by (simp_all add: pointerField_simps partEvent_def readsBackEvent_def)
    with 4 show ?thesis by (simp add: pointerField_reads) (simp add: pointerField_simps partEvent_def)
  next
    case 5
    with S vis rb have "readsBackPtr (codecChannel cs) (Channel K)" "Channel K \<noteq> None"
      "Channel (partEvent cs K S) = None"
      by (simp_all add: pointerField_simps partEvent_def readsBackEvent_def)
    with 5 show ?thesis by (simp add: pointerField_reads) (simp add: pointerField_simps partEvent_def)
  next
    case 6
    with S vis rb have "readsBackPtr (codecChannelMember cs) (Member K)" "Member K \<noteq> None"
      "Member (partEvent cs K S) = None"
      by (simp_all add: pointerField_simps partEvent_def readsBackEvent_def)
    with 6 show ?thesis by (simp add: pointerField_reads) (simp add: pointerField_simps partEvent_def)
  next
    case 7
    with S vis rb show ?thesis
      by (simp add: sliceField_simps partEvent_def readsBackEvent_def)
  next
    case 8
    with S vis rb have "readsBackPtr (codecUser cs) (User K)" "User K \<noteq> None"
      "User (partEvent cs K S) = None"
      by (simp_all add: pointerField_simps partEvent_def readsBackEvent_def)
    with 8 show ?thesis by (simp add: pointerField_reads) (simp add: pointerField_simps partEvent_def)
  next
    case 9
    with S show ?thesis by (simp add: stringField_simps partEvent_def)
  next
    case 10
    with S vis rb have "readsBackPtr (codecUser cs) (OwnUser K)" "OwnUser K \<noteq> None"
      "OwnUser (partEvent cs K S) = None"
      by (simp_all add: pointerField_simps partEvent_def readsBackEvent_def)
    with 10 show ?thesis by (simp add: pointerField_reads) (simp add: pointerField_simps partEvent_def)
  next
    case 11
    with S show ?thesis by (simp add: intField_simps partEvent_def)
  next
    case 12
    with S rb show ?thesis
      by (simp add: structField_simps partEvent_def readsBackEvent_def readsBackValue_def)
  qed
qed

lemma spellsE:
  assumes "spells d (addToMapAndMarshal m known)"
  obtains kvs where "d = Some (JObject kvs)" "distinct (map fst kvs)"
    "map_of kvs = map_of known ++ (m |` (- fst ` set known))"
proof -
  from assms obtain v where d: "d = Some v" by (cases d) (auto simp: spells_def)
  with assms obtain kvs where v: "v = JObject kvs" by (cases v) (auto simp: spells_def)
  with assms d that show thesis by (auto simp: spells_def addToMapAndMarshal_def)
qed

lemma decode_encoded:
  fixes part :: "string set \<Rightarrow> 's"
  assumes dist: "distinct (map name fs)"
    and step: "\<And>f S. f \<in> set fs \<Longrightarrow> name f \<notin> S \<Longrightarrow> \<not> (omitEmpty f \<and> isEmptyValue f K)
      \<Longrightarrow> decodeField f (encodeField f K) (part S) = Some (part (insert (name f) S))"
    and keys: "\<And>k. k \<in> dom m \<Longrightarrow> findField fs k = None \<or> k \<in> fst ` set (Marshal_struct fs K)"
    and kvs: "distinct (map fst kvs)"
      "map_of kvs = map_of (Marshal_struct fs K) ++ (m |` (- fst ` set (Marshal_struct fs K)))"
  shows "object fs kvs (part {}) = Some (part (fst ` set (Marshal_struct fs K)))"
    and "removeFromMap (foldl (\<lambda>m' (k, v). m'(k \<mapsto> v)) Map.empty kvs) fs = m |` (- set (map name fs))"
proof -
  let ?vis = "Marshal_struct fs K"
  have each: "findField fs k = None
        \<or> (\<exists>f \<in> set fs. name f = k \<and> \<not> (omitEmpty f \<and> isEmptyValue f K) \<and> v = encodeField f K)"
    if "(k, v) \<in> set kvs" for k v
  proof -
    from that kvs(1) have mk: "map_of kvs k = Some v" by simp
    show ?thesis
    proof (cases "k \<in> fst ` set ?vis")
      case True
      then have "(m |` (- fst ` set ?vis)) k = None" by (simp add: restrict_map_def)
      moreover from mk kvs(2) have "(map_of ?vis ++ (m |` (- fst ` set ?vis))) k = Some v" by simp
      ultimately have "map_of ?vis k = Some v" by (simp add: map_add_def)
      then have "(k, v) \<in> set ?vis" by (rule map_of_SomeD)
      then show ?thesis by (simp add: Marshal_struct_mem)
    next
      case False
      then have "map_of ?vis k = None" by (simp add: map_of_eq_None_iff)
      moreover from mk kvs(2) have "(map_of ?vis ++ (m |` (- fst ` set ?vis))) k = Some v" by simp
      ultimately have "m k = Some v" using False
        by (simp add: map_add_def restrict_map_def split: option.splits)
      then have "k \<in> dom m" by blast
      with keys [of k] False show ?thesis by simp
    qed
  qed
  have visnames: "fst ` set ?vis \<subseteq> name ` set fs"
    by (auto simp: Marshal_struct_def)
  have "fst ` set kvs = dom (map_of kvs)" by (simp add: dom_map_of_conv_image_fst)
  also have "\<dots> = fst ` set ?vis \<union> (dom m - fst ` set ?vis)"
    unfolding kvs(2) by (auto simp: dom_map_of_conv_image_fst)
  finally have ks: "fst ` set kvs = fst ` set ?vis \<union> (dom m - fst ` set ?vis)" .
  have "fst ` set kvs \<inter> name ` set fs = fst ` set ?vis"
  proof -
    have "k \<notin> name ` set fs" if "k \<in> dom m" "k \<notin> fst ` set ?vis" for k
      using keys [of k] that findField_None_not_name [of fs k] by blast
    with ks visnames show ?thesis by blast
  qed
  with object_encoded [of fs K part kvs "{}", OF dist step kvs(1) each]
  show "object fs kvs (part {}) = Some (part (fst ` set ?vis))" by simp
  have "foldl (\<lambda>m' (k, v). m'(k \<mapsto> v)) Map.empty kvs = map_of kvs"
    by (simp add: foldl_upd_map_of map_of_rev_distinct [OF kvs(1)])
  moreover have "map_of kvs |` (- set (map name fs)) = m |` (- set (map name fs))"
  proof (rule ext)
    fix k
    show "(map_of kvs |` (- set (map name fs))) k = (m |` (- set (map name fs))) k"
    proof (cases "k \<in> name ` set fs")
      case True
      then show ?thesis by (simp add: restrict_map_def)
    next
      case False
      with visnames have nv: "k \<notin> fst ` set ?vis" by blast
      then have "map_of ?vis k = None" by (simp add: map_of_eq_None_iff)
      with False nv show ?thesis
        unfolding kvs(2) by (simp add: restrict_map_def map_add_def split: option.split)
    qed
  qed
  ultimately show "removeFromMap (foldl (\<lambda>m' (k, v). m'(k \<mapsto> v)) Map.empty kvs) fs = m |` (- set (map name fs))"
    by (simp add: removeFromMap_def)
qed

lemma partEvent_empty: "partEvent cs K {} = zeroEvent cs"
  by (simp add: partEvent_def zeroEvent_def)

lemma eventFields_visible:
  "''cid'' \<in> fst ` set (Marshal_struct (eventFields cs) K) \<longleftrightarrow> CID K \<noteq> []"
  "''type'' \<in> fst ` set (Marshal_struct (eventFields cs) K)"
  "''message'' \<in> fst ` set (Marshal_struct (eventFields cs) K) \<longleftrightarrow> Message K \<noteq> None"
  "''reaction'' \<in> fst ` set (Marshal_struct (eventFields cs) K) \<longleftrightarrow> Reaction K \<noteq> None"
  "''channel'' \<in> fst ` set (Marshal_struct (eventFields cs) K) \<longleftrightarrow> Channel K \<noteq> None"
  "''member'' \<in> fst ` set (Marshal_struct (eventFields cs) K) \<longleftrightarrow> Member K \<noteq> None"
  "''members'' \<in> fst ` set (Marshal_struct (eventFields cs) K) \<longleftrightarrow> Members K \<noteq> []"
  "''user'' \<in> fst ` set (Marshal_struct (eventFields cs) K) \<longleftrightarrow> User K \<noteq> None"
  "''user_id'' \<in> fst ` set (Marshal_struct (eventFields cs) K) \<longleftrightarrow> UserID K \<noteq> []"
  "''me'' \<in> fst ` set (Marshal_struct (eventFields cs) K) \<longleftrightarrow> OwnUser K \<noteq> None"
  "''watcher_count'' \<in> fst ` set (Marshal_struct (eventFields cs) K) \<longleftrightarrow> WatcherCount K \<noteq> 0"
  "''created_at'' \<in> fst ` set (Marshal_struct (eventFields cs) K)"
  unfolding Marshal_struct_keys
  by (simp_all add: eventFields_def stringField_def pointerField_def sliceField_def intField_def
      structField_def)

lemma partEvent_visible:
  "partEvent cs K (fst ` set (Marshal_struct (eventFields cs) K)) = K\<lparr>Event.ExtraData := Map.empty\<rparr>"
  by (rule Event.equality) (auto simp: partEvent_def eventFields_visible)

lemma Event_decode_encoded:
  assumes rb: "readsBackEvent cs K"
    and keys: "\<And>k. k \<in> dom (Event.ExtraData K) \<Longrightarrow>
       findField (eventFields cs) k = None \<or> k \<in> fst ` set (Marshal_struct (eventFields cs) K)"
    and sp: "spells d (MarshalJSON_Event cs K)"
  shows "UnmarshalJSON_Event cs e d =
    (None, K\<lparr>Event.ExtraData := Event.ExtraData K |` (- set (map name (eventFields cs)))\<rparr>)"
proof -
  from sp obtain kvs where d: "d = Some (JObject kvs)" and dk: "distinct (map fst kvs)"
    and mk: "map_of kvs = map_of (Marshal_struct (eventFields cs) K)
        ++ (Event.ExtraData K |` (- fst ` set (Marshal_struct (eventFields cs) K)))"
    unfolding MarshalJSON_Event_def by (rule spellsE)
  note de = decode_encoded [of "eventFields cs" K "partEvent cs K" "Event.ExtraData K" kvs,
      OF eventFields_distinct partEvent_step [OF rb] keys dk mk]
  from de(1) have "object (eventFields cs) kvs (zeroEvent cs) = Some (K\<lparr>Event.ExtraData := Map.empty\<rparr>)"
    by (simp add: partEvent_empty partEvent_visible)
  with de(2) d show ?thesis
    by (simp add: UnmarshalJSON_Event_def Unmarshal_struct_def Unmarshal_map_def)
qed

lemma userCustomEventFields_distinct: "distinct (map name (userCustomEventFields ct))"
  by (simp add: userCustomEventFields_def stringField_def structField_def)





section \<open>Evaluation on concrete inputs\<close>

lemmas example_defs = exampleCodecs_def exampleTime_def exampleRaw_def exampleUser_def
  exampleChannel_def exampleMembers_def

lemmas field_defs = eventFields_def userCustomEventFields_def stringField_def intField_def
  pointerField_def sliceField_def structField_def

lemmas fold_defs = findField_def foldName_def toUpper_def inRange_def less_eq_char_def char_of_eq_iff

lemmas decode_defs = UnmarshalJSON_Event_def UnmarshalJSON_UserCustomEvent_def
  Unmarshal_struct_def Unmarshal_map_def removeFromMap_def

lemmas path_defs = Join_def Clean_def PathEscape_def escapeByte_def shouldEscape_def inRange_def
  upperhex_def less_eq_char_def Let_def

section \<open>Round trip, precedence and the extra map\<close>




lemma Marshal_struct_distinct:
  "distinct (map name fs) \<Longrightarrow> distinct (map fst (Marshal_struct fs s))"
  by (simp add: Marshal_struct_def comp_def distinct_map_filter)

lemma map_of_Marshal_struct:
  assumes "distinct (map name fs)" "f \<in> set fs" "\<not> (omitEmpty f \<and> isEmptyValue f s)"
  shows "map_of (Marshal_struct fs s) (name f) = Some (encodeField f s)"
proof -
  from assms(2,3) have "(name f, encodeField f s) \<in> set (Marshal_struct fs s)"
    unfolding Marshal_struct_mem by blast
  with Marshal_struct_distinct [OF assms(1)] show ?thesis by simp
qed

lemma valueAt_visible:
  assumes "distinct (map name fs)" "f \<in> set fs" "\<not> (omitEmpty f \<and> isEmptyValue f s)"
  shows "valueAt (addToMapAndMarshal m (Marshal_struct fs s)) (name f) = Some (encodeField f s)"
proof -
  from assms(2,3) have "name f \<in> fst ` set (Marshal_struct fs s)"
    unfolding Marshal_struct_keys by blast
  then have "(m |` (- fst ` set (Marshal_struct fs s))) (name f) = None"
    by (simp add: restrict_map_def)
  with map_of_Marshal_struct [OF assms] show ?thesis
    by (simp add: valueAt_def addToMapAndMarshal_def map_add_def)
qed

lemma bogusEvent_reads:
  "readsBackValue (codecTime cs) (zeroValue (codecTime cs)) \<Longrightarrow> readsBackEvent cs (bogusEvent cs)"
  by (simp add: readsBackEvent_def readsBackPtr_def bogusEvent_def zeroEvent_def)

text \<open>
  C2, as the encoder does it. When a key of the extra map is the wire name of a known
  field that is written (not omitted as empty), the document carries the value of the
  known field for that key, for an \<open>Event\<close> and for a \<open>UserCustomEvent\<close>. The event
  with \<open>Type\<close> \<^verbatim>\<open>message.new\<close> and the extra map \<^verbatim>\<open>{"type": "bogus"}\<close> is written
  with \<^verbatim>\<open>message.new\<close> under \<^verbatim>\<open>type\<close>, and decoding its document yields an empty
  extra map (the time codec reading back the zero time it wrote).
\<close>

theorem visible_field_precedence:
  "(f \<in> set (eventFields cs) \<and> \<not> (omitEmpty f \<and> isEmptyValue f K)
      \<longrightarrow> valueAt (MarshalJSON_Event cs K) (name f) = Some (encodeField f K))
   \<and> (g \<in> set (userCustomEventFields ct) \<and> \<not> (omitEmpty g \<and> isEmptyValue g K')
      \<longrightarrow> valueAt (MarshalJSON_UserCustomEvent ct K') (name g) = Some (encodeField g K'))
   \<and> valueAt (MarshalJSON_Event cs (bogusEvent cs)) ''type'' = Some (JString ''message.new'')
   \<and> (readsBackValue (codecTime cs) (zeroValue (codecTime cs))
        \<and> spells d (MarshalJSON_Event cs (bogusEvent cs))
      \<longrightarrow> UnmarshalJSON_Event cs e d = (None, (bogusEvent cs)\<lparr>Event.ExtraData := Map.empty\<rparr>))"
proof (intro conjI impI)
  assume "f \<in> set (eventFields cs) \<and> \<not> (omitEmpty f \<and> isEmptyValue f K)"
  then show "valueAt (MarshalJSON_Event cs K) (name f) = Some (encodeField f K)"
    unfolding MarshalJSON_Event_def by (intro valueAt_visible eventFields_distinct) auto
next
  assume "g \<in> set (userCustomEventFields ct) \<and> \<not> (omitEmpty g \<and> isEmptyValue g K')"
  then show "valueAt (MarshalJSON_UserCustomEvent ct K') (name g) = Some (encodeField g K')"
    unfolding MarshalJSON_UserCustomEvent_def
    by (intro valueAt_visible userCustomEventFields_distinct) auto
next
  let ?t = "stringField ''type'' False Event.Type (\<lambda>x e. e\<lparr>Event.Type := x\<rparr>)
      :: ('a, 'b, 'c, 'd) Event field"
  have "valueAt (MarshalJSON_Event cs (bogusEvent cs)) (name ?t) = Some (encodeField ?t (bogusEvent cs))"
    unfolding MarshalJSON_Event_def
    by (intro valueAt_visible eventFields_distinct) (simp_all add: eventFields_def stringField_def)
  then show "valueAt (MarshalJSON_Event cs (bogusEvent cs)) ''type'' = Some (JString ''message.new'')"
    by (simp add: stringField_def bogusEvent_def)
next
  assume a: "readsBackValue (codecTime cs) (zeroValue (codecTime cs))
        \<and> spells d (MarshalJSON_Event cs (bogusEvent cs))"
  have keys: "findField (eventFields cs) k = None
      \<or> k \<in> fst ` set (Marshal_struct (eventFields cs) (bogusEvent cs))"
    if "k \<in> dom (Event.ExtraData (bogusEvent cs))" for k
  proof -
    from that have "k = ''type''" by (simp add: bogusEvent_def split: if_splits)
    then show ?thesis by (simp add: eventFields_visible)
  qed
  have "Event.ExtraData (bogusEvent cs) |` (- set (map name (eventFields cs))) = Map.empty"
    by (rule ext) (simp add: bogusEvent_def restrict_map_def eventFields_def stringField_def)
  with Event_decode_encoded [of cs "bogusEvent cs" d e, OF bogusEvent_reads keys] a
  show "UnmarshalJSON_Event cs e d = (None, (bogusEvent cs)\<lparr>Event.ExtraData := Map.empty\<rparr>)"
    by simp
qed

theorem visible_field_precedence_witness:
  "valueAt (MarshalJSON_Event exampleCodecs shadowedEvent) ''cid'' = Some (JString ''messaging:general'')
   \<and> valueAt (MarshalJSON_UserCustomEvent exampleTime shadowedUserCustomEvent) ''type''
       = Some (JString ''friendship_request'')
   \<and> UnmarshalJSON_Event exampleCodecs exampleEvent bogusData
       = (None, (bogusEvent exampleCodecs)\<lparr>Event.ExtraData := Map.empty\<rparr>)"
proof -
  have a: "hd (eventFields exampleCodecs) \<in> set (eventFields exampleCodecs)
      \<and> \<not> (omitEmpty (hd (eventFields exampleCodecs))
            \<and> isEmptyValue (hd (eventFields exampleCodecs)) shadowedEvent)"
    by (simp add: field_defs shadowedEvent_def exampleEvent_def)
  have b: "hd (userCustomEventFields exampleTime) \<in> set (userCustomEventFields exampleTime)
      \<and> \<not> (omitEmpty (hd (userCustomEventFields exampleTime))
            \<and> isEmptyValue (hd (userCustomEventFields exampleTime)) shadowedUserCustomEvent)"
    by (simp add: field_defs)
  have c: "readsBackValue (codecTime exampleCodecs) (zeroValue (codecTime exampleCodecs))
      \<and> spells bogusData (MarshalJSON_Event exampleCodecs (bogusEvent exampleCodecs))"
    by (simp add: readsBackValue_def spells_def bogusData_def MarshalJSON_Event_def
        addToMapAndMarshal_def Marshal_struct_def field_defs bogusEvent_def zeroEvent_def
        example_defs fun_eq_iff map_add_def restrict_map_def)
  have n1: "name (hd (eventFields exampleCodecs)) = ''cid''"
    and v1: "encodeField (hd (eventFields exampleCodecs)) shadowedEvent = JString ''messaging:general''"
    by (simp_all add: field_defs shadowedEvent_def exampleEvent_def)
  have n2: "name (hd (userCustomEventFields exampleTime)) = ''type''"
    and v2: "encodeField (hd (userCustomEventFields exampleTime)) shadowedUserCustomEvent
        = JString ''friendship_request''"
    by (simp_all add: field_defs shadowedUserCustomEvent_def exampleUserCustomEvent_def)
  show ?thesis
    using visible_field_precedence [of "hd (eventFields exampleCodecs)" exampleCodecs shadowedEvent
        "hd (userCustomEventFields exampleTime)" exampleTime shadowedUserCustomEvent bogusData
        exampleEvent] a b c
    unfolding n1 v1 n2 v2 by blast
qed

text \<open>
  C2 as stated fails for a field that is omitted: with \<open>CID\<close> empty and the extra key
  \<^verbatim>\<open>cid\<close>, the document carries the value of the extra map under \<^verbatim>\<open>cid\<close>.
\<close>

theorem extra_overrides_omitted_field_counterexample:
  "''cid'' \<in> set (map name (eventFields exampleCodecs))
   \<and> Event.ExtraData omittedFieldEvent ''cid'' = Some (JString ''x'')
   \<and> CID omittedFieldEvent = []
   \<and> valueAt (MarshalJSON_Event exampleCodecs omittedFieldEvent) ''cid'' = Some (JString ''x'')"
  by (simp add: omittedFieldEvent_def zeroEvent_def valueAt_def MarshalJSON_Event_def
      addToMapAndMarshal_def Marshal_struct_def field_defs example_defs map_add_def restrict_map_def)

text \<open>
  C3. Whenever decoding succeeds, for an \<open>Event\<close> or a \<open>UserCustomEvent\<close>, no key of
  the resulting extra map is the wire name of a known field. The removal goes by the
  names of the fields, not by the values sent: the witness sends \<^verbatim>\<open>cid\<close> (and
  \<^verbatim>\<open>type\<close>) as the empty string.
\<close>

theorem extra_has_no_field_key:
  "(UnmarshalJSON_Event cs e d = (None, e1)
      \<longrightarrow> dom (Event.ExtraData e1) \<inter> set (map name (eventFields cs)) = {})
   \<and> (UnmarshalJSON_UserCustomEvent ct u d' = (None, u1)
      \<longrightarrow> dom (UserCustomEvent.ExtraData u1) \<inter> set (map name (userCustomEventFields ct)) = {})"
  by (auto simp: UnmarshalJSON_Event_def UnmarshalJSON_UserCustomEvent_def removeFromMap_def
      split: sum.splits)

theorem extra_has_no_field_key_witness:
  "UnmarshalJSON_Event exampleCodecs exampleEvent emptyCidData = (None, emptyCidEvent)
   \<and> dom (Event.ExtraData emptyCidEvent) \<inter> set (map name (eventFields exampleCodecs)) = {}
   \<and> UnmarshalJSON_UserCustomEvent exampleTime exampleUserCustomEvent emptyTypeData
       = (None, emptyTypeUserCustomEvent)
   \<and> dom (UserCustomEvent.ExtraData emptyTypeUserCustomEvent)
       \<inter> set (map name (userCustomEventFields exampleTime)) = {}"
proof -
  have a: "UnmarshalJSON_Event exampleCodecs exampleEvent emptyCidData = (None, emptyCidEvent)"
    by (simp add: decode_defs emptyCidData_def emptyCidEvent_def field_defs fold_defs zeroEvent_def
        example_defs fun_eq_iff restrict_map_def)
  have b: "UnmarshalJSON_UserCustomEvent exampleTime exampleUserCustomEvent emptyTypeData
       = (None, emptyTypeUserCustomEvent)"
    by (simp add: decode_defs emptyTypeData_def emptyTypeUserCustomEvent_def field_defs fold_defs
        zeroUserCustomEvent_def example_defs fun_eq_iff restrict_map_def)
  show ?thesis
    using extra_has_no_field_key [of exampleCodecs exampleEvent emptyCidData emptyCidEvent
        exampleTime exampleUserCustomEvent emptyTypeData emptyTypeUserCustomEvent] a b
    by blast
qed

section \<open>Decoding: event kinds and failures\<close>












section \<open>Dispatch: the request path\<close>

text \<open>\<open>Clean\<close> on entries of the test table of the Go package \<^verbatim>\<open>path\<close>.\<close>

lemma Clean_examples:
  "Clean ''abc//def//ghi'' = ''abc/def/ghi''"
  "Clean ''abc/./../def'' = ''def''"
  "Clean ''/../abc'' = ''/abc''"
  "Clean ''abc/../../././../def'' = ''../../def''"
  "Clean ''../../abc'' = ''../../abc''"
  "Clean ''abc/def/..'' = ''abc''"
  "Clean ''/abc/def/../../..'' = ''/''"
  "Clean ''abc/def/'' = ''abc/def''"
  "Clean ''.'' = ''.''"
  "Clean [] = ''.''"
  by (simp_all add: Clean_def Let_def)

text \<open>
  An escaped value holds no slash, and it is empty, \<^verbatim>\<open>.\<close> or \<^verbatim>\<open>..\<close> only when the
  value is. So for every target user id, channel type and channel id other than these
  three, the path is the escaped values joined by slashes.
\<close>

lemma upperhex_no_slash: "k < 16 \<Longrightarrow> upperhex ! k \<noteq> CHR ''/''"
proof -
  assume "k < 16"
  then have "k < length upperhex" by (simp add: upperhex_def)
  then have "upperhex ! k \<in> set upperhex" by (rule nth_mem)
  moreover have "CHR ''/'' \<notin> set upperhex" by (simp add: upperhex_def)
  ultimately show ?thesis by metis
qed

lemma shouldEscape_slash: "\<not> shouldEscape c \<Longrightarrow> c \<noteq> CHR ''/''"
  by (auto simp: shouldEscape_def inRange_def less_eq_char_def)

lemma shouldEscape_dot: "\<not> shouldEscape (CHR ''.'')"
  by (simp add: shouldEscape_def inRange_def less_eq_char_def)

lemma escapeByte_no_slash: "CHR ''/'' \<notin> set (escapeByte c)"
proof -
  have "(of_char c :: nat) < 256" by (rule nat_of_char_less_256)
  then have "(of_char c :: nat) div 16 < 16" "(of_char c :: nat) mod 16 < 16" by arith+
  then show ?thesis
    using upperhex_no_slash [of "of_char c div 16"] upperhex_no_slash [of "of_char c mod 16"]
      shouldEscape_slash [of c]
    by (auto simp: escapeByte_def)
qed

lemma PathEscape_no_slash: "CHR ''/'' \<notin> set (PathEscape s)"
  by (simp add: PathEscape_def escapeByte_no_slash)

lemma PathEscape_Nil_iff: "PathEscape s = [] \<longleftrightarrow> s = []"
  by (cases s) (simp_all add: PathEscape_def escapeByte_def)

lemma PathEscape_Cons_dot:
  "PathEscape (c # cs) = CHR ''.'' # r \<longleftrightarrow> c = CHR ''.'' \<and> PathEscape cs = r"
  using shouldEscape_dot by (auto simp: PathEscape_def escapeByte_def)

lemma PathEscape_dots:
  "PathEscape s = ''.'' \<longleftrightarrow> s = ''.''"
  "PathEscape s = ''..'' \<longleftrightarrow> s = ''..''"
proof -
  show "PathEscape s = ''.'' \<longleftrightarrow> s = ''.''"
    by (cases s) (auto simp: PathEscape_Cons_dot PathEscape_Nil_iff, simp add: PathEscape_def)
  show "PathEscape s = ''..'' \<longleftrightarrow> s = ''..''"
  proof (cases s)
    case Nil
    then show ?thesis by (simp add: PathEscape_def)
  next
    case (Cons c cs)
    then show ?thesis
      by (cases cs) (auto simp: PathEscape_Cons_dot PathEscape_Nil_iff, simp add: PathEscape_def)
  qed
qed

lemma splitSlash_one: "CHR ''/'' \<notin> set a \<Longrightarrow> splitSlash a = [a]"
  by (induction a) auto

lemma splitSlash_append:
  "CHR ''/'' \<notin> set a \<Longrightarrow> splitSlash (a @ CHR ''/'' # b) = a # splitSlash b"
  by (induction a) auto

lemma Join_users:
  assumes "CHR ''/'' \<notin> set s" "s \<noteq> []" "s \<noteq> ''.''" "s \<noteq> ''..''"
  shows "Join [''users'', s, ''event''] = ''users/'' @ s @ ''/event''"
proof -
  have "splitSlash (''users'' @ CHR ''/'' # (s @ CHR ''/'' # ''event'')) = [''users'', s, ''event'']"
    using assms(1) by (simp add: splitSlash_append splitSlash_one)
  then have "splitSlash (''users/'' @ s @ ''/event'') = [''users'', s, ''event'']" by simp
  with assms show ?thesis
    by (simp add: Join_def Clean_def Let_def)
qed

lemma Join_channels:
  assumes "CHR ''/'' \<notin> set t" "t \<noteq> []" "t \<noteq> ''.''" "t \<noteq> ''..''"
    and "CHR ''/'' \<notin> set i" "i \<noteq> []" "i \<noteq> ''.''" "i \<noteq> ''..''"
  shows "Join [''channels'', t, i, ''event''] = ''channels/'' @ t @ ''/'' @ i @ ''/event''"
proof -
  have "splitSlash (''channels'' @ CHR ''/'' # (t @ CHR ''/'' # (i @ CHR ''/'' # ''event'')))
      = [''channels'', t, i, ''event'']"
    using assms(1,5) by (simp add: splitSlash_append splitSlash_one)
  then have "splitSlash (''channels/'' @ t @ ''/'' @ i @ ''/event'') = [''channels'', t, i, ''event'']"
    by simp
  with assms show ?thesis
    by (simp add: Join_def Clean_def Let_def)
qed

lemma SendUserCustomEvent_path:
  assumes "targetUserID \<noteq> []" "targetUserID \<noteq> ''.''" "targetUserID \<noteq> ''..''"
  shows "snd (SendUserCustomEvent remote targetUserID (Some ev) sent)
     = sent @ [\<lparr>reqMethod = ''POST'', reqPath = ''users/'' @ PathEscape targetUserID @ ''/event'',
          reqBody = UserCustomEventEnvelope ev\<rparr>]"
proof -
  from assms have "Join [''users'', PathEscape targetUserID, ''event'']
      = ''users/'' @ PathEscape targetUserID @ ''/event''"
    by (intro Join_users) (simp_all add: PathEscape_no_slash PathEscape_Nil_iff PathEscape_dots)
  with assms(1) show ?thesis
    by (simp add: SendUserCustomEvent_def makeRequest_def MethodPost_def Let_def split: prod.split)
qed

lemma SendEvent_path:
  assumes "Channel.Type ch \<notin> {[], ''.'', ''..''}" "Channel.ID ch \<notin> {[], ''.'', ''..''}"
  shows "snd (snd (SendEvent remote ch (Some ev) userID sent))
     = sent @ [\<lparr>reqMethod = ''POST'',
          reqPath = ''channels/'' @ PathEscape (Channel.Type ch) @ ''/''
                      @ PathEscape (Channel.ID ch) @ ''/event'',
          reqBody = EventEnvelope (ev\<lparr>User := Some \<lparr>User.ID = userID\<rparr>\<rparr>)\<rparr>]"
proof -
  from assms have "Join [''channels'', PathEscape (Channel.Type ch), PathEscape (Channel.ID ch), ''event'']
      = ''channels/'' @ PathEscape (Channel.Type ch) @ ''/'' @ PathEscape (Channel.ID ch) @ ''/event''"
    by (intro Join_channels) (simp_all add: PathEscape_no_slash PathEscape_Nil_iff PathEscape_dots)
  then show ?thesis
    by (simp add: SendEvent_def makeRequest_def MethodPost_def Let_def split: prod.split)
qed

text \<open>
  The path of the spec's example: a channel of type \<^verbatim>\<open>messaging\<close> and id
  \<^verbatim>\<open>general/team\<close>.
\<close>

lemma SendEvent_path_example:
  "snd (snd (SendEvent remote \<lparr>Channel.ID = ''general/team'', Channel.Type = ''messaging''\<rparr>
       (Some ev) userID sent))
     = sent @ [\<lparr>reqMethod = ''POST'', reqPath = ''channels/messaging/general%2Fteam/event'',
          reqBody = EventEnvelope (ev\<lparr>User := Some \<lparr>User.ID = userID\<rparr>\<rparr>)\<rparr>]"
  by (simp add: SendEvent_def makeRequest_def MethodPost_def path_defs split: prod.split)

text \<open>
  C8 at the target user id \<^verbatim>\<open>..\<close>: \<^verbatim>\<open>url.PathEscape\<close> leaves the dots as they
  are, and \<^verbatim>\<open>path.Join\<close> cleans the joined path, so the request goes to
  \<^verbatim>\<open>event\<close>, not to \<^verbatim>\<open>users/../event\<close>.
\<close>

theorem SendUserCustomEvent_dot_dot:
  "snd (SendUserCustomEvent remote ''..'' (Some ev) sent)
     = sent @ [\<lparr>reqMethod = ''POST'', reqPath = ''event'', reqBody = UserCustomEventEnvelope ev\<rparr>]
   \<and> ''users/'' @ PathEscape ''..'' @ ''/event'' = ''users/../event''"
  by (simp add: SendUserCustomEvent_def makeRequest_def MethodPost_def path_defs split: prod.split)

section \<open>Dispatch: the user in the transmitted document\<close>

text \<open>
  The event that \<open>SendEvent\<close> puts into the envelope is written with the acting
  user under the key \<^verbatim>\<open>user\<close>, whatever the extra map holds under that key.
\<close>

lemma SendEvent_user_in_document:
  "valueAt (MarshalJSON_Event cs (ev\<lparr>User := Some \<lparr>User.ID = userID\<rparr>\<rparr>)) ''user''
     = Some (marshal (codecUser cs) \<lparr>User.ID = userID\<rparr>)"
proof -
  let ?u = "pointerField ''user'' True (codecUser cs) User (\<lambda>x e. e\<lparr>User := x\<rparr>)
      :: ('a, 'b, 'c, 'd) Event field"
  let ?ev = "ev\<lparr>User := Some \<lparr>User.ID = userID\<rparr>\<rparr>"
  have "valueAt (MarshalJSON_Event cs ?ev) (name ?u) = Some (encodeField ?u ?ev)"
    unfolding MarshalJSON_Event_def
    by (intro valueAt_visible eventFields_distinct) (simp_all add: eventFields_def pointerField_def)
  then show ?thesis by (simp add: pointerField_def)
qed

end
